theory Spec2Isabelle
  imports Complex_Main "HOL-Library.Log_Nat"
begin

section \<open>Data model\<close>

text \<open>
  The module \<^verbatim>\<open>Rossler.py\<close> computes with NumPy arrays of Python floats. A float is read
  here as a real number, and the rounding of the values in a state or a matrix is outside
  the model; a one-dimensional array is a list of reals and a two-dimensional array is the
  list of its rows. There is one place where rounding decides more than a last digit, the
  product \<^verbatim>\<open>t * 100\<close> that becomes a number of samples, and there it is written out.

  Every \<^verbatim>\<open>raise\<close> that the source or the NumPy calls it makes can reach is a value of
  \<open>error\<close>; a computation returns \<open>Inl\<close> of the error or \<open>Inr\<close> of its result.
\<close>

datatype error = ValueError | TypeError | IndexError | IntegrationFailure

text \<open>
  A time handed to \<^verbatim>\<open>Flow\<close> or \<^verbatim>\<open>Jacobian\<close> is a Python number, and the source
  multiplies it with the \<^verbatim>\<open>int\<close> literal 100 before it is used as a sample count, so
  whether it is an \<^verbatim>\<open>int\<close> or a \<^verbatim>\<open>float\<close> is kept.
\<close>

datatype pynum = PyInt int | PyFloat real

fun to_real :: "pynum \<Rightarrow> real" where
  "to_real (PyInt n) = of_int n"
| "to_real (PyFloat x) = x"

text \<open>
  A Python float is an IEEE double. \<open>round_double\<close> takes a real to the nearest double,
  ties to the even significand: \<open>binade x\<close> is the exponent \<open>e\<close> with
  \<open>2 ^ e \<le> \<bar>x\<bar> < 2 ^ (e + 1)\<close>, the spacing of the doubles there is \<open>2 ^ (e - 52)\<close>, and
  below \<open>2 ^ (- 1022)\<close> the spacing stays that of the smallest normal numbers. A result
  beyond the largest double, which Python gives as \<^verbatim>\<open>inf\<close>, is outside the model.
\<close>

definition round_even :: "real \<Rightarrow> int" where
  "round_even r =
     (let f = \<lfloor>r\<rfloor>; d = r - of_int f
      in if d < 1 / 2 then f else if 1 / 2 < d then f + 1 else if even f then f else f + 1)"

definition binade :: "real \<Rightarrow> int" where
  "binade x =
     (if 1 \<le> \<bar>x\<bar> then int (floorlog 2 (nat \<lfloor>\<bar>x\<bar>\<rfloor>)) - 1
      else - int (floorlog 2 (nat (\<lceil>1 / \<bar>x\<bar>\<rceil> - 1))))"

definition pow2 :: "int \<Rightarrow> real" where
  "pow2 e = (if 0 \<le> e then 2 ^ nat e else 1 / 2 ^ nat (- e))"

definition round_double :: "real \<Rightarrow> real" where
  "round_double x =
     (if x = 0 then 0
      else let e = max (binade x) (- 1022); u = pow2 (e - 52)
           in of_int (round_even (x / u)) * u)"

text \<open>
  \<^verbatim>\<open>x * y\<close>: the product of two \<^verbatim>\<open>int\<close>s is exact; otherwise an \<^verbatim>\<open>int\<close> operand is
  converted to a float and the product is rounded.
\<close>

fun as_float :: "pynum \<Rightarrow> real" where
  "as_float (PyInt n) = round_double (of_int n)"
| "as_float (PyFloat x) = x"

fun pymul :: "pynum \<Rightarrow> pynum \<Rightarrow> pynum" where
  "pymul (PyInt m) (PyInt n) = PyInt (m * n)"
| "pymul x y = PyFloat (round_double (as_float x * as_float y))"

text \<open>
  The module-level names \<^verbatim>\<open>a\<close>, \<^verbatim>\<open>b\<close>, \<^verbatim>\<open>c\<close> (lines 7 to 9) are the only state that
  outlives a call. They are a record that every operation receives and hands back.
\<close>

record globals =
  a :: real
  b :: real
  c :: real

definition module_globals :: globals where
  "module_globals = \<lparr>a = 0.2, b = 0.2, c = 5.7\<rparr>"

type_synonym 'r py = "globals \<Rightarrow> (error + 'r) \<times> globals"

definition lift :: "error + 'r \<Rightarrow> 'r py" where
  "lift r g = (r, g)"

definition then_py :: "'r py \<Rightarrow> ('r \<Rightarrow> 'q py) \<Rightarrow> 'q py" where
  "then_py m f g = (case m g of (Inl e, g') \<Rightarrow> (Inl e, g') | (Inr x, g') \<Rightarrow> f x g')"

section \<open>The NumPy operations the module calls\<close>

definition zeros :: "nat \<Rightarrow> real list" where
  "zeros n = replicate n 0"

definition identity :: "nat \<Rightarrow> real list list" where
  "identity n = map (\<lambda>i. map (\<lambda>j. if i = j then 1 else 0) [0..<n]) [0..<n]"

fun rows_of :: "nat \<Rightarrow> nat \<Rightarrow> real list \<Rightarrow> real list list" where
  "rows_of 0 k v = []"
| "rows_of (Suc r) k v = take k v # rows_of r k (drop k v)"

definition reshape2 :: "nat \<Rightarrow> nat \<Rightarrow> real list \<Rightarrow> error + real list list" where
  \<comment> \<open>\<^verbatim>\<open>v.reshape((r, k))\<close> of a one-dimensional array, row-major\<close>
  "reshape2 r k v = (if length v = r * k then Inr (rows_of r k v) else Inl ValueError)"

definition reshape1 :: "real list list \<Rightarrow> nat \<Rightarrow> error + real list" where
  \<comment> \<open>\<^verbatim>\<open>np.reshape(M, n)\<close> of a two-dimensional array, row-major\<close>
  "reshape1 M n = (if length (concat M) = n then Inr (concat M) else Inl ValueError)"

definition ncols :: "real list list \<Rightarrow> nat" where
  "ncols M = (case M of [] \<Rightarrow> 0 | r # _ \<Rightarrow> length r)"

definition dot :: "real list list \<Rightarrow> real list list \<Rightarrow> error + real list list" where
  \<comment> \<open>\<^verbatim>\<open>np.dot\<close> of two two-dimensional arrays\<close>
  "dot A B =
     (if ncols A = length B
      then Inr (map (\<lambda>i. map (\<lambda>j. sum_list (map (\<lambda>k. A ! i ! k * B ! k ! j) [0..<length B]))
                              [0..<ncols B])
                    [0..<length A])
      else Inl ValueError)"

definition assign_slice :: "real list \<Rightarrow> nat \<Rightarrow> nat \<Rightarrow> real list \<Rightarrow> error + real list" where
  \<comment> \<open>\<^verbatim>\<open>v[lo:hi] = src\<close>: the slice is clipped to the array, a source of one element is
      broadcast, any other length mismatch raises\<close>
  "assign_slice v lo hi src =
     (let hi' = min hi (length v); lo' = min lo hi'; n = hi' - lo'
      in if length src = n then Inr (take lo' v @ src @ drop hi' v)
         else if length src = 1 then Inr (take lo' v @ replicate n (hd src) @ drop hi' v)
         else Inl ValueError)"

definition last_row :: "real list list \<Rightarrow> error + real list" where
  \<comment> \<open>\<^verbatim>\<open>sol[-1, :]\<close>\<close>
  "last_row sol = (if sol = [] then Inl IndexError else Inr (last sol))"

text \<open>
  \<^verbatim>\<open>np.linspace(start, stop, num)\<close> first turns \<open>num\<close> into an index. An \<^verbatim>\<open>int\<close> is taken
  as it is. For a \<^verbatim>\<open>float\<close> the two generations of NumPy differ: from 1.10 to 1.17 the count is
  truncated towards zero by \<^verbatim>\<open>int(num)\<close>, from 1.18 on \<^verbatim>\<open>operator.index(num)\<close> raises
  \<^verbatim>\<open>TypeError\<close>. A negative count raises \<^verbatim>\<open>ValueError\<close>. The samples are
  \<open>start + i * step\<close> with \<open>step = (stop - start) / (num - 1)\<close>, and with more than one
  sample the last one is overwritten by \<open>stop\<close>.
\<close>

datatype numpy_era = Legacy | Modern

fun as_index :: "numpy_era \<Rightarrow> pynum \<Rightarrow> error + int" where
  "as_index era (PyInt n) = Inr n"
| "as_index Legacy (PyFloat x) = Inr (if 0 \<le> x then \<lfloor>x\<rfloor> else \<lceil>x\<rceil>)"
| "as_index Modern (PyFloat x) = Inl TypeError"

definition linspace :: "numpy_era \<Rightarrow> pynum \<Rightarrow> pynum \<Rightarrow> pynum \<Rightarrow> error + real list" where
  "linspace era start stop num =
     (case as_index era num of
        Inl e \<Rightarrow> Inl e
      | Inr n \<Rightarrow>
          if n < 0 then Inl ValueError
          else
            let dv = n - 1;
                delta = to_real stop - to_real start;
                y = map real [0..<nat n];
                y = (if 0 < dv then map (\<lambda>i. i * (delta / of_int dv)) y
                     else map (\<lambda>i. i * delta) y);
                y = map (\<lambda>v. v + to_real start) y
            in Inr (if 1 < n then y[nat n - 1 := to_real stop] else y))"

text \<open>
  \<^verbatim>\<open>scipy.integrate.odeint\<close> is not part of the module. It is a parameter of the two
  operations that call it: a function of the right-hand side, the initial vector and the
  sample times that returns the rows of the solution array, or fails. The right-hand
  side it is given is the Python function together with the module state in force at
  the call.
\<close>

type_synonym integrator =
  "(real list \<Rightarrow> real \<Rightarrow> error + real list) \<Rightarrow> real list \<Rightarrow> real list \<Rightarrow> error + real list list"

section \<open>The operations of the module\<close>

definition Velocity :: "real list \<Rightarrow> 't \<Rightarrow> real list py" where
  "Velocity ssp t g =
     (case ssp of
        [x, y, z] \<Rightarrow>
          (let dxdt = - y - z;
               dydt = x + a g * y;
               dzdt = b g + z * (x - c g)
           in (Inr [dxdt, dydt, dzdt], g))
      | _ \<Rightarrow> (Inl ValueError, g))"

definition Flow :: "integrator \<Rightarrow> real list \<Rightarrow> pynum \<Rightarrow> real list py" where
  "Flow odeint ssp0 deltat g =
     then_py (lift (odeint (\<lambda>v t. fst (Velocity v t g)) ssp0 [0, to_real deltat]))
       (\<lambda>sspSolution. lift (last_row sspSolution)) g"

definition StabilityMatrix :: "real list \<Rightarrow> real list list py" where
  "StabilityMatrix ssp g =
     (case ssp of
        [x, y, z] \<Rightarrow> (Inr [[0, -1, -1], [1, a g, 0], [z, 0, x - c g]], g)
      | _ \<Rightarrow> (Inl ValueError, g))"

definition unpack_J :: "real list \<Rightarrow> error + real list list" where
  \<comment> \<open>line 90: \<^verbatim>\<open>sspJacobian[3:].reshape((3, 3))\<close>\<close>
  "unpack_J sspJacobian = reshape2 3 3 (drop 3 sspJacobian)"

definition pack_J :: "real list \<Rightarrow> real list list \<Rightarrow> error + real list" where
  \<comment> \<open>lines 101 and 122: \<^verbatim>\<open>buf[3:] = np.reshape(M, 9)\<close>\<close>
  "pack_J buf M =
     (case reshape1 M 9 of
        Inl e \<Rightarrow> Inl e
      | Inr flat \<Rightarrow> assign_slice buf 3 (length buf) flat)"

definition JacobianVelocity :: "real list \<Rightarrow> 't \<Rightarrow> real list py" where
  "JacobianVelocity sspJacobian t =
     (let ssp = take 3 sspJacobian in
      then_py (lift (unpack_J sspJacobian)) (\<lambda>J.
      let velJ = zeros (length sspJacobian) in
      then_py (Velocity ssp t) (\<lambda>vel.
      then_py (lift (assign_slice velJ 0 3 vel)) (\<lambda>velJ.
      then_py (StabilityMatrix ssp) (\<lambda>A.
      then_py (lift (dot A J)) (\<lambda>velTangent.
      lift (pack_J velJ velTangent)))))))"

definition Jacobian_init :: "real list \<Rightarrow> error + real list" where
  \<comment> \<open>lines 116 to 122: the augmented initial condition\<close>
  "Jacobian_init ssp =
     (let J0 = identity 3;
          sspJacobian0 = zeros (3 + 3 ^ 2)
      in case assign_slice sspJacobian0 0 3 ssp of
           Inl e \<Rightarrow> Inl e
         | Inr sspJacobian0 \<Rightarrow> pack_J sspJacobian0 J0)"

definition Jacobian_grid :: "numpy_era \<Rightarrow> pynum \<Rightarrow> error + real list" where
  \<comment> \<open>lines 124 to 127: the output time grid\<close>
  "Jacobian_grid era t =
     (let tInitial = PyInt 0;
          tFinal = t;
          Nt = pymul t (PyInt 100)
      in linspace era tInitial tFinal Nt)"

definition Jacobian :: "numpy_era \<Rightarrow> integrator \<Rightarrow> real list \<Rightarrow> pynum \<Rightarrow> real list list py" where
  "Jacobian era odeint ssp t g =
     then_py (lift (Jacobian_init ssp)) (\<lambda>sspJacobian0.
     then_py (lift (Jacobian_grid era t)) (\<lambda>tArray.
     then_py (lift (odeint (\<lambda>v s. fst (JacobianVelocity v s g)) sspJacobian0 tArray))
       (\<lambda>sspJacobianSolution.
     then_py (lift (last_row sspJacobianSolution)) (\<lambda>row.
     lift (reshape2 3 3 (drop 3 row)))))) g"

text \<open>
  A small integrator to run the operations on: explicit Euler with one step per grid
  interval, which does not evaluate the right-hand side over an interval of length zero.
\<close>

fun euler_steps ::
  "(real list \<Rightarrow> real \<Rightarrow> error + real list) \<Rightarrow> real list \<Rightarrow> real \<Rightarrow> real list
     \<Rightarrow> error + real list list" where
  "euler_steps f y t [] = Inr []"
| "euler_steps f y t (t' # ts) =
     (if t' = t then map_sum id ((#) y) (euler_steps f y t ts)
      else case f y t of
             Inl e \<Rightarrow> Inl e
           | Inr d \<Rightarrow>
               (let y' = map2 (\<lambda>yi di. yi + (t' - t) * di) y d
                in map_sum id ((#) y') (euler_steps f y' t' ts)))"

definition euler_odeint :: integrator where
  "euler_odeint f y0 ts =
     (case ts of [] \<Rightarrow> Inr [] | t0 # rest \<Rightarrow> map_sum id ((#) y0) (euler_steps f y0 t0 rest))"

section \<open>What is asked of the integrator\<close>

text \<open>
  Two properties of an integrator are used as hypotheses. Over a span of length zero the
  solution is the initial vector at both samples (LSODA returns at once when the first
  output time is the initial time), and a solution has one row for each sample time.
\<close>

definition returns_start_on_zero_span :: "integrator \<Rightarrow> bool" where
  "returns_start_on_zero_span odeint \<longleftrightarrow> (\<forall>f y0 t0. odeint f y0 [t0, t0] = Inr [y0, y0])"

definition one_row_per_time :: "integrator \<Rightarrow> bool" where
  "one_row_per_time odeint \<longleftrightarrow>
     (\<forall>f y0 ts sol. odeint f y0 ts = Inr sol \<longrightarrow> length sol = length ts)"

text \<open>
  Python has no exception called InvalidArgument. The exceptions with which a call
  rejects an argument are \<^verbatim>\<open>ValueError\<close> and \<^verbatim>\<open>TypeError\<close>.
\<close>

definition InvalidArgument :: "error \<Rightarrow> bool" where
  "InvalidArgument e \<longleftrightarrow> e = ValueError \<or> e = TypeError"

section \<open>Auxiliary facts\<close>

lemma lt3: "(i::nat) < 3 \<longleftrightarrow> i = 0 \<or> i = 1 \<or> i = 2"
  by auto

lemma all_lt3: "(\<forall>i<3::nat. P i) \<longleftrightarrow> P 0 \<and> P 1 \<and> P 2"
  by (auto simp: lt3)

lemma sum_lt3: "(\<Sum>k<3::nat. f k) = f 0 + f 1 + (f 2 :: real)"
  by (simp add: eval_nat_numeral)

lemma upt3: "[0..<3] = [0, 1, 2]"
  by (simp add: upt_rec)

lemma replicate_3: "replicate 3 x = [x, x, x]"
  by (simp add: numeral_3_eq_3)

lemma len3: "length v = 3 \<Longrightarrow> \<exists>x y z. v = [x, y, z::real]"
  by (auto simp: length_Suc_conv eval_nat_numeral)

lemma len12:
  "length v = 12 \<Longrightarrow>
     \<exists>v0 v1 v2 v3 v4 v5 v6 v7 v8 v9 v10 v11. v = [v0, v1, v2, v3, v4, v5, v6, v7, v8, v9, v10, v11::real]"
  by (simp add: length_Suc_conv eval_nat_numeral) blast

subsection \<open>Reshaping\<close>

lemma rows_of_3_3:
  "rows_of 3 3 [m0, m1, m2, m3, m4, m5, m6, m7, m8] = [[m0, m1, m2], [m3, m4, m5], [m6, m7, m8]]"
  by (simp add: eval_nat_numeral)

lemma identity_3: "identity 3 = [[1, 0, 0], [0, 1, 0], [0, 0, 1]]"
  by (simp add: identity_def upt3)

lemma concat_rows_of: "length v = r * k \<Longrightarrow> concat (rows_of r k v) = v"
  by (induction r arbitrary: v) simp_all

lemma length_rows_of: "length (rows_of r k v) = r"
  by (induction r arbitrary: v) simp_all

lemma rows_of_row_length:
  "length v = r * k \<Longrightarrow> row \<in> set (rows_of r k v) \<Longrightarrow> length row = k"
proof (induction r arbitrary: v)
  case 0
  then show ?case by simp
next
  case (Suc r)
  have rest: "length (drop k v) = r * k"
    using Suc.prems(1) by simp
  from Suc.prems(2) have "row = take k v \<or> row \<in> set (rows_of r k (drop k v))"
    by simp
  then show ?case
  proof
    assume "row = take k v"
    then show ?thesis using Suc.prems(1) by simp
  next
    assume "row \<in> set (rows_of r k (drop k v))"
    then show ?thesis using Suc.IH [OF rest] by simp
  qed
qed

lemma rows_of_concat: "\<forall>row\<in>set M. length row = k \<Longrightarrow> rows_of (length M) k (concat M) = M"
  by (induction M) simp_all

lemma length_concat_rows: "\<forall>row\<in>set M. length row = k \<Longrightarrow> length (concat M) = length M * k"
  by (induction M) simp_all

lemma dot_3_3:
  "dot [[a0, a1, a2], [a3, a4, a5], [a6, a7, a8]] [[m0, m1, m2], [m3, m4, m5], [m6, m7, m8]] =
    Inr [[a0 * m0 + a1 * m3 + a2 * m6, a0 * m1 + a1 * m4 + a2 * m7, a0 * m2 + a1 * m5 + a2 * m8],
         [a3 * m0 + a4 * m3 + a5 * m6, a3 * m1 + a4 * m4 + a5 * m7, a3 * m2 + a4 * m5 + a5 * m8],
         [a6 * m0 + a7 * m3 + a8 * m6, a6 * m1 + a7 * m4 + a8 * m7, a6 * m2 + a7 * m5 + a8 * m8]]"
  by (simp add: dot_def ncols_def upt3)

subsection \<open>The operations on explicit vectors\<close>

lemma Velocity_time: "Velocity s t1 = Velocity s t2"
  by (rule ext) (simp add: Velocity_def)

lemma JacobianVelocity_explicit:
  "JacobianVelocity [x, y, z, j0, j1, j2, j3, j4, j5, j6, j7, j8] t g =
    (Inr [- y - z, x + a g * y, b g + z * (x - c g),
          - j3 - j6, - j4 - j7, - j5 - j8,
          j0 + a g * j3, j1 + a g * j4, j2 + a g * j5,
          z * j0 + (x - c g) * j6, z * j1 + (x - c g) * j7, z * j2 + (x - c g) * j8], g)"
  by (simp add: JacobianVelocity_def unpack_J_def reshape2_def rows_of_3_3 then_py_def lift_def
      Velocity_def StabilityMatrix_def zeros_def assign_slice_def dot_def ncols_def reshape1_def
      pack_J_def upt3 Let_def)

lemma three_by_three:
  assumes "length N = 3" and "\<forall>row\<in>set N. length row = 3"
  shows "\<exists>m0 m1 m2 m3 m4 m5 m6 m7 m8. N = [[m0, m1, m2], [m3, m4, m5], [m6, m7, m8::real]]"
proof -
  from assms(1) obtain r0 r1 r2 where N: "N = [r0, r1, r2]"
    by (auto simp: length_Suc_conv eval_nat_numeral)
  with assms(2) have "length r0 = 3" "length r1 = 3" "length r2 = 3"
    by simp_all
  then obtain m0 m1 m2 m3 m4 m5 m6 m7 m8
    where "r0 = [m0, m1, m2]" "r1 = [m3, m4, m5]" "r2 = [m6, m7, m8]"
    using len3 by metis
  then show ?thesis
    using N by blast
qed

lemma unpack_J_explicit:
  "unpack_J [x, y, z, m0, m1, m2, m3, m4, m5, m6, m7, m8] =
     Inr [[m0, m1, m2], [m3, m4, m5], [m6, m7, m8]]"
  by (simp add: unpack_J_def reshape2_def rows_of_3_3)

lemma pack_J_explicit:
  "pack_J [b0, b1, b2, b3, b4, b5, b6, b7, b8, b9, b10, b11]
      [[m0, m1, m2], [m3, m4, m5], [m6, m7, m8]] =
     Inr [b0, b1, b2, m0, m1, m2, m3, m4, m5, m6, m7, m8]"
  by (simp add: pack_J_def reshape1_def assign_slice_def Let_def)

lemma Jacobian_init_3:
  "length ssp = 3 \<Longrightarrow> Jacobian_init ssp = Inr (ssp @ [1, 0, 0, 0, 1, 0, 0, 0, 1])"
  by (simp add: Jacobian_init_def identity_3 zeros_def assign_slice_def reshape1_def pack_J_def
      Let_def)

lemma Jacobian_init_1: "Jacobian_init [x] = Inr [x, x, x, 1, 0, 0, 0, 1, 0, 0, 0, 1]"
  by (simp add: Jacobian_init_def identity_3 zeros_def assign_slice_def reshape1_def pack_J_def
      Let_def replicate_3)

lemma Jacobian_init_other:
  "length ssp \<noteq> 3 \<Longrightarrow> length ssp \<noteq> 1 \<Longrightarrow> Jacobian_init ssp = Inl ValueError"
  by (simp add: Jacobian_init_def identity_3 zeros_def assign_slice_def reshape1_def pack_J_def
      Let_def)

subsection \<open>Rounding to a double\<close>

lemma pow2_pos: "0 < pow2 e"
  by (simp add: pow2_def)

lemma pow2_neg_nat: "pow2 (- int j) = 1 / 2 ^ j"
  by (simp add: pow2_def)

lemma round_even_nonpos: "r \<le> 0 \<Longrightarrow> round_even r \<le> 0"
  by (auto simp: round_even_def Let_def not_less)

lemma round_even_nonneg: "0 \<le> r \<Longrightarrow> 0 \<le> round_even r"
  by (auto simp: round_even_def Let_def not_less)

lemma round_double_nonpos: "x \<le> 0 \<Longrightarrow> round_double x \<le> 0"
  by (simp add: round_double_def Let_def mult_le_0_iff pow2_pos less_imp_le round_even_nonpos
      divide_le_0_iff)

lemma round_double_nonneg: "0 \<le> x \<Longrightarrow> 0 \<le> round_double x"
  by (simp add: round_double_def Let_def zero_le_mult_iff pow2_pos less_imp_le round_even_nonneg)

lemma real_power_le_nat: "2 ^ k \<le> (n::nat) \<Longrightarrow> (2::real) ^ k \<le> real n"
  by (metis of_nat_le_iff of_nat_numeral of_nat_power)

lemma nat_less_real_power: "(n::nat) < 2 ^ k \<Longrightarrow> real n + 1 \<le> 2 ^ k"
  by (metis Suc_leI of_nat_Suc of_nat_le_iff of_nat_numeral of_nat_power add.commute)

text \<open>\<open>binade\<close> is the exponent of the power of two at or below \<open>\<bar>x\<bar>\<close>.\<close>

lemma binade_bounds:
  assumes "x \<noteq> 0"
  shows "pow2 (binade x) \<le> \<bar>x\<bar> \<and> \<bar>x\<bar> < pow2 (binade x + 1)"
proof (cases "1 \<le> \<bar>x\<bar>")
  case True
  define n where "n = nat \<lfloor>\<bar>x\<bar>\<rfloor>"
  define k where "k = floorlog 2 n"
  have n: "0 < n"
    using True by (simp add: n_def)
  have e: "binade x = int k - 1"
    using True by (simp add: binade_def n_def k_def)
  from floorlog_bounds [OF n, of 2]
  have lo: "2 ^ (k - 1) \<le> n" and hi: "n < 2 ^ k"
    by (simp_all add: k_def)
  have k: "0 < k"
    using n by (simp add: floorlog_def k_def)
  then have p1: "pow2 (binade x) = 2 ^ (k - 1)"
    by (simp add: e pow2_def nat_diff_distrib')
  have p2: "pow2 (binade x + 1) = 2 ^ k"
    by (simp add: e pow2_def)
  have below: "real n \<le> \<bar>x\<bar>"
    using True by (simp add: n_def)
  have above: "\<bar>x\<bar> < real n + 1"
    using True by (simp add: n_def)
  have "pow2 (binade x) \<le> \<bar>x\<bar>"
    unfolding p1 using real_power_le_nat [OF lo] below by (rule order_trans)
  moreover have "\<bar>x\<bar> < pow2 (binade x + 1)"
    unfolding p2 using above nat_less_real_power [OF hi] by (rule less_le_trans)
  ultimately show ?thesis
    by simp
next
  case False
  define y where "y = 1 / \<bar>x\<bar>"
  have x: "0 < \<bar>x\<bar>" "\<bar>x\<bar> < 1"
    using assms False by simp_all
  then have y: "1 < y"
    by (simp add: y_def)
  have xy: "\<bar>x\<bar> = 1 / y"
    using x by (simp add: y_def)
  define m where "m = nat (\<lceil>y\<rceil> - 1)"
  define k where "k = floorlog 2 m"
  have c: "2 \<le> \<lceil>y\<rceil>"
    using y by linarith
  then have m: "0 < m"
    by (simp add: m_def)
  have e: "binade x = - int k"
    using False by (simp add: binade_def m_def y_def k_def)
  from floorlog_bounds [OF m, of 2]
  have lo: "2 ^ (k - 1) \<le> m" and hi: "m < 2 ^ k"
    by (simp_all add: k_def)
  have k: "0 < k"
    using m by (simp add: floorlog_def k_def)
  have p1: "pow2 (binade x) = 1 / 2 ^ k"
    using k by (simp add: e pow2_def)
  have eq: "binade x + 1 = - int (k - 1)"
    using k by (simp add: e)
  have "pow2 (- int (k - 1)) = 1 / 2 ^ (k - 1)"
    by (rule pow2_neg_nat)
  then have p2: "pow2 (binade x + 1) = 1 / 2 ^ (k - 1)"
    by (subst eq)
  have rm: "real m = of_int \<lceil>y\<rceil> - 1"
    using c by (simp add: m_def)
  have below: "real m < y"
    unfolding rm by linarith
  have above: "y \<le> real m + 1"
    unfolding rm by linarith
  have "y \<le> 2 ^ k"
    using above nat_less_real_power [OF hi] by (rule order_trans)
  then have "1 / 2 ^ k \<le> 1 / y"
    using y by (simp add: frac_le)
  then have 1: "pow2 (binade x) \<le> \<bar>x\<bar>"
    by (simp add: p1 xy)
  have "2 ^ (k - 1) < y"
    using real_power_le_nat [OF lo] below by (rule le_less_trans)
  then have "1 / y < 1 / 2 ^ (k - 1)"
    by (simp add: frac_less2)
  then have 2: "\<bar>x\<bar> < pow2 (binade x + 1)"
    by (simp add: p2 xy)
  show ?thesis
    using 1 2 by simp
qed

lemma round_double_100: "round_double 100 = 100"
  by code_simp

lemma round_double_5_2: "round_double (5 / 2) = 5 / 2"
  by code_simp

lemma round_double_0015: "round_double (3 / 200) = 1080863910568919 / 72057594037927936"
  by code_simp

lemma round_double_0015_100:
  "round_double (27021597764222975 / 18014398509481984) = 3 / 2"
  by code_simp

subsection \<open>The time grid\<close>

lemma linspace_nonpositive_count:
  assumes "as_index era num = Inr n" and "n \<le> 0"
  shows "linspace era start stop num = (if n < 0 then Inl ValueError else Inr [])"
  using assms by (simp add: linspace_def Let_def)

lemma count_nonpositive:
  assumes "to_real t \<le> 0"
  shows "as_index era (pymul t (PyInt 100)) = Inl TypeError \<or>
         (\<exists>n\<le>0. as_index era (pymul t (PyInt 100)) = Inr n)"
proof (cases t)
  case (PyInt n)
  then show ?thesis using assms by simp
next
  case (PyFloat x)
  define r where "r = round_double (x * round_double 100)"
  have "x \<le> 0"
    using PyFloat assms by simp
  then have "x * round_double 100 \<le> 0"
    by (simp add: round_double_100)
  then have r: "r \<le> 0"
    unfolding r_def by (rule round_double_nonpos)
  then have "\<lceil>r\<rceil> \<le> 0"
    by (simp add: ceiling_le_iff)
  moreover have "\<lfloor>r\<rfloor> = 0" if "0 \<le> r"
    using that r by simp
  moreover have "pymul t (PyInt 100) = PyFloat r"
    using PyFloat by (simp add: r_def)
  ultimately show ?thesis
    by (cases era) auto
qed

lemma grid_nonpositive:
  assumes "to_real t \<le> 0"
  shows "Jacobian_grid era t = Inl ValueError \<or> Jacobian_grid era t = Inl TypeError \<or>
         Jacobian_grid era t = Inr []"
proof -
  from count_nonpositive [OF assms, of era]
  show ?thesis
  proof
    assume "as_index era (pymul t (PyInt 100)) = Inl TypeError"
    then show ?thesis by (simp add: Jacobian_grid_def linspace_def)
  next
    assume "\<exists>n\<le>0. as_index era (pymul t (PyInt 100)) = Inr n"
    then obtain n where "n \<le> 0" and "as_index era (pymul t (PyInt 100)) = Inr n"
      by blast
    then show ?thesis
      using linspace_nonpositive_count [of era "pymul t (PyInt 100)" n "PyInt 0" t]
      by (simp add: Jacobian_grid_def split: if_splits)
  qed
qed

subsection \<open>The integrator\<close>

lemma one_row_per_timeD:
  "one_row_per_time odeint \<Longrightarrow> odeint f y0 ts = Inr sol \<Longrightarrow> length sol = length ts"
  unfolding one_row_per_time_def by blast

lemma euler_steps_length: "euler_steps f y t ts = Inr sol \<Longrightarrow> length sol = length ts"
  by (induction ts arbitrary: y t sol)
    (auto split: if_splits sum.splits simp: map_sum_def Let_def)

lemma euler_one_row_per_time: "one_row_per_time euler_odeint"
  by (auto simp: one_row_per_time_def euler_odeint_def map_sum_def
      split: list.splits sum.splits dest: euler_steps_length)

lemma euler_zero_span: "returns_start_on_zero_span euler_odeint"
  by (simp add: returns_start_on_zero_span_def euler_odeint_def)

section \<open>Velocity\<close>

text \<open>
  C3. For every state \<open>(x, y, z)\<close> and every time \<open>t\<close>, \<^verbatim>\<open>Velocity\<close> returns the vector
  \<open>(- y - z, x + a y, b + z (x - c))\<close> with \<open>a = 0.2\<close>, \<open>b = 0.2\<close>, \<open>c = 5.7\<close>, the values the
  module binds when it is loaded.
\<close>

theorem Velocity_closed_form:
  "Velocity [x, y, z] t module_globals =
     (Inr [- y - z, x + 0.2 * y, 0.2 + z * (x - 5.7)], module_globals)"
  by (simp add: Velocity_def module_globals_def)

text \<open>
  C8. Neither \<^verbatim>\<open>Velocity\<close> nor \<^verbatim>\<open>JacobianVelocity\<close> looks at its time argument: any two
  times, of whatever type, give the same result on the same vector.
\<close>

theorem time_independence:
  "Velocity s t1 g = Velocity s t2 g \<and> JacobianVelocity v t1 g = JacobianVelocity v t2 g"
  by (simp add: JacobianVelocity_def Velocity_time [of _ t1 t2])

section \<open>StabilityMatrix\<close>

text \<open>
  C2. For every state \<open>(x, y, z)\<close>, \<^verbatim>\<open>StabilityMatrix\<close> returns the matrix with rows
  \<open>(0, -1, -1)\<close>, \<open>(1, a, 0)\<close>, \<open>(z, 0, x - c)\<close>, and its entry \<open>(i, j)\<close> is the partial
  derivative of component \<open>i\<close> of \<^verbatim>\<open>Velocity\<close> with respect to component \<open>j\<close> of the
  state, taken at \<open>(x, y, z)\<close>.
\<close>

theorem StabilityMatrix_is_derivative:
  "StabilityMatrix [x, y, z] g = (Inr [[0, -1, -1], [1, a g, 0], [z, 0, x - c g]], g) \<and>
   (\<forall>i<3. \<forall>j<3.
      ((\<lambda>h. projr (fst (Velocity ([x, y, z][j := h]) t g)) ! i) has_field_derivative
         projr (fst (StabilityMatrix [x, y, z] g)) ! i ! j) (at ([x, y, z] ! j)))"
proof -
  have closed: "StabilityMatrix [x, y, z] g = (Inr [[0, -1, -1], [1, a g, 0], [z, 0, x - c g]], g)"
    by (simp add: StabilityMatrix_def)
  have partial:
    "((\<lambda>h. projr (fst (Velocity ([x, y, z][j := h]) t g)) ! i) has_field_derivative
         projr (fst (StabilityMatrix [x, y, z] g)) ! i ! j) (at ([x, y, z] ! j))"
    if "i < 3" and "j < 3" for i j
    using that unfolding lt3
    by (elim disjE; simp add: Velocity_def StabilityMatrix_def;
        (auto intro!: derivative_eq_intros)?)
  show ?thesis
    using closed partial by blast
qed

theorem StabilityMatrix_is_derivative_witness:
  "StabilityMatrix [1, 2, 3] module_globals =
     (Inr [[0, -1, -1], [1, 0.2, 0], [3, 0, 1 - 5.7]], module_globals) \<and>
   ((\<lambda>h. projr (fst (Velocity [h, 2, 3] (0::real) module_globals)) ! 2) has_field_derivative 3)
     (at 1)"
proof -
  note inst = StabilityMatrix_is_derivative [of 1 2 3 module_globals "0::real"]
  have closed: "StabilityMatrix [1, 2, 3] module_globals =
     (Inr [[0, -1, -1], [1, 0.2, 0], [3, 0, 1 - 5.7]], module_globals)"
    using inst by (simp add: module_globals_def)
  have "((\<lambda>h. projr (fst (Velocity ([1, 2, 3][0 := h]) (0::real) module_globals)) ! 2)
          has_field_derivative projr (fst (StabilityMatrix [1, 2, 3] module_globals)) ! 2 ! 0)
          (at ([1, 2, 3] ! 0))"
    using inst [THEN conjunct2, rule_format, of 2 0] by simp
  then show ?thesis
    using closed by simp
qed

section \<open>JacobianVelocity\<close>

text \<open>
  C1. For every augmented state \<open>v\<close> of 12 components and every time, \<^verbatim>\<open>JacobianVelocity\<close>
  returns 12 components. The first three are \<^verbatim>\<open>Velocity\<close> of the first three components
  of \<open>v\<close>; the last nine are the rows, one after the other, of the matrix product of
  \<^verbatim>\<open>StabilityMatrix\<close> at the first three components of \<open>v\<close> with the matrix \<open>M\<close> whose
  rows are read, one after the other, from the last nine components of \<open>v\<close>.
\<close>

theorem JacobianVelocity_augmented:
  assumes "length v = 12"
  shows "\<exists>vel A M P out.
      Velocity (take 3 v) t g = (Inr vel, g) \<and>
      StabilityMatrix (take 3 v) g = (Inr A, g) \<and>
      reshape2 3 3 (drop 3 v) = Inr M \<and>
      (\<forall>i<3. \<forall>j<3. M ! i ! j = v ! (3 + 3 * i + j)) \<and>
      dot A M = Inr P \<and>
      (\<forall>i<3. \<forall>j<3. P ! i ! j = (\<Sum>k<3. A ! i ! k * M ! k ! j)) \<and>
      JacobianVelocity v t g = (Inr out, g) \<and>
      length out = 12 \<and> take 3 out = vel \<and> drop 3 out = concat P"
proof -
  from len12 [OF assms] obtain x y z j0 j1 j2 j3 j4 j5 j6 j7 j8
    where v: "v = [x, y, z, j0, j1, j2, j3, j4, j5, j6, j7, j8]"
    by (elim exE)
  let ?vel = "[- y - z, x + a g * y, b g + z * (x - c g)]"
  let ?A = "[[0, -1, -1], [1, a g, 0], [z, 0, x - c g]]"
  let ?M = "[[j0, j1, j2], [j3, j4, j5], [j6, j7, j8]]"
  obtain P where P: "dot ?A ?M = Inr P"
    and Pdef: "P = [[0 * j0 + (-1) * j3 + (-1) * j6, 0 * j1 + (-1) * j4 + (-1) * j7,
                     0 * j2 + (-1) * j5 + (-1) * j8],
                    [1 * j0 + a g * j3 + 0 * j6, 1 * j1 + a g * j4 + 0 * j7,
                     1 * j2 + a g * j5 + 0 * j8],
                    [z * j0 + 0 * j3 + (x - c g) * j6, z * j1 + 0 * j4 + (x - c g) * j7,
                     z * j2 + 0 * j5 + (x - c g) * j8]]"
    using dot_3_3 by blast
  have 1: "Velocity (take 3 v) t g = (Inr ?vel, g)"
    by (simp add: v Velocity_def)
  have 2: "StabilityMatrix (take 3 v) g = (Inr ?A, g)"
    by (simp add: v StabilityMatrix_def)
  have 3: "reshape2 3 3 (drop 3 v) = Inr ?M"
    by (simp add: v reshape2_def rows_of_3_3)
  have 4: "\<forall>i<3. \<forall>j<3. ?M ! i ! j = v ! (3 + 3 * i + j)"
    by (simp add: v all_lt3)
  have 5: "\<forall>i<3. \<forall>j<3. P ! i ! j = (\<Sum>k<3. ?A ! i ! k * ?M ! k ! j)"
    by (simp add: Pdef all_lt3 sum_lt3)
  have 6: "JacobianVelocity v t g = (Inr (?vel @ concat P), g)"
    by (simp add: v JacobianVelocity_explicit Pdef)
  have 7: "length (?vel @ concat P) = 12"
    by (simp add: Pdef)
  show ?thesis
    using 1 2 3 4 5 6 7 P by (intro exI conjI) (assumption | simp)+
qed

theorem JacobianVelocity_augmented_witness:
  "length [1, 2, 3, 1, 2, 3, 4, 5, 6, 7, 8, 9 :: real] = 12 \<and>
   JacobianVelocity [1, 2, 3, 1, 2, 3, 4, 5, 6, 7, 8, 9] (0::real) module_globals =
     (Inr [- 5, 7 / 5, - (139 / 10), - 11, - 13, - 15, 9 / 5, 3, 21 / 5,
           - (299 / 10), - (158 / 5), - (333 / 10)], module_globals)"
proof -
  let ?v = "[1, 2, 3, 1, 2, 3, 4, 5, 6, 7, 8, 9 :: real]"
  have h: "length ?v = 12" by simp
  from JacobianVelocity_augmented [OF h, of "0::real" module_globals]
  obtain vel A M P out where
    vel: "Velocity (take 3 ?v) (0::real) module_globals = (Inr vel, module_globals)" and
    A: "StabilityMatrix (take 3 ?v) module_globals = (Inr A, module_globals)" and
    M: "reshape2 3 3 (drop 3 ?v) = Inr M" and
    P: "dot A M = Inr P" and
    res: "JacobianVelocity ?v (0::real) module_globals = (Inr out, module_globals)" and
    front: "take 3 out = vel" and rear: "drop 3 out = concat P"
    by blast
  have "vel = [- 5, 7 / 5, - (139 / 10)]"
    using vel by (simp add: Velocity_def module_globals_def)
  moreover have "A = [[0, -1, -1], [1, 1 / 5, 0], [3, 0, - (47 / 10)]]"
    using A by (simp add: StabilityMatrix_def module_globals_def)
  moreover have "M = [[1, 2, 3], [4, 5, 6], [7, 8, 9]]"
    using M by (simp add: reshape2_def rows_of_3_3)
  ultimately have "P = [[- 11, - 13, - 15], [9 / 5, 3, 21 / 5],
                        [- (299 / 10), - (158 / 5), - (333 / 10)]]"
    using P by (simp add: dot_3_3)
  moreover have "out = take 3 out @ drop 3 out"
    by simp
  ultimately have "out = [- 5, 7 / 5, - (139 / 10), - 11, - 13, - 15, 9 / 5, 3, 21 / 5,
           - (299 / 10), - (158 / 5), - (333 / 10)]"
    using front rear \<open>vel = [- 5, 7 / 5, - (139 / 10)]\<close> by simp
  then show ?thesis
    using res h by simp
qed

section \<open>Flow\<close>

text \<open>
  C6. For every state \<open>s\<close>, \<^verbatim>\<open>Flow(s, 0)\<close> returns \<open>s\<close>. The operation hands the grid
  \<open>[0, 0]\<close> to the integrator and reads the last row of what comes back, so this holds
  for an integrator that returns the initial vector over a span of length zero.
\<close>

theorem Flow_zero_time:
  assumes "returns_start_on_zero_span odeint" and "to_real deltat = 0"
  shows "Flow odeint s deltat g = (Inr s, g)"
  using assms
  by (simp add: Flow_def returns_start_on_zero_span_def then_py_def lift_def last_row_def)

theorem Flow_zero_time_witness:
  "returns_start_on_zero_span euler_odeint \<and> to_real (PyFloat 0) = 0 \<and>
   Flow euler_odeint [1, 2, 3] (PyFloat 0) module_globals = (Inr [1, 2, 3], module_globals)"
  using Flow_zero_time [OF euler_zero_span, of "PyFloat 0" "[1, 2, 3]" module_globals]
    euler_zero_span
  by simp

section \<open>Jacobian\<close>

text \<open>
  C4. For every initial state \<open>ssp\<close> of three components and every time \<open>t\<close>, \<^verbatim>\<open>Jacobian\<close>
  starts from the augmented vector made of \<open>ssp\<close> followed by the rows of the identity
  matrix, integrates \<^verbatim>\<open>JacobianVelocity\<close> from it over the time grid, and returns the last
  nine components of the last row of the solution as a matrix of three rows.
\<close>

theorem Jacobian_procedure:
  assumes "length ssp = 3"
  shows "Jacobian_init ssp = Inr (ssp @ concat (identity 3)) \<and>
         concat (identity 3) = [1, 0, 0, 0, 1, 0, 0, 0, 1] \<and>
         Jacobian era odeint ssp t g =
           (case Jacobian_grid era t of
              Inl e \<Rightarrow> Inl e
            | Inr tArray \<Rightarrow>
                (case odeint (\<lambda>v s. fst (JacobianVelocity v s g)) (ssp @ concat (identity 3)) tArray of
                   Inl e \<Rightarrow> Inl e
                 | Inr sol \<Rightarrow>
                     if sol = [] then Inl IndexError else reshape2 3 3 (drop 3 (last sol))), g) \<and>
         (\<forall>row. length row = 12 \<longrightarrow>
            reshape2 3 3 (drop 3 row) =
              Inr [[row ! 3, row ! 4, row ! 5], [row ! 6, row ! 7, row ! 8], [row ! 9, row ! 10, row ! 11]])"
proof -
  have shape: "reshape2 3 3 (drop 3 row) =
      Inr [[row ! 3, row ! 4, row ! 5], [row ! 6, row ! 7, row ! 8], [row ! 9, row ! 10, row ! 11]]"
    if "length row = 12" for row :: "real list"
  proof -
    from len12 [OF that] obtain v0 v1 v2 v3 v4 v5 v6 v7 v8 v9 v10 v11
      where "row = [v0, v1, v2, v3, v4, v5, v6, v7, v8, v9, v10, v11]"
      by (elim exE)
    then show ?thesis by (simp add: reshape2_def rows_of_3_3)
  qed
  have run: "Jacobian era odeint ssp t g =
           (case Jacobian_grid era t of
              Inl e \<Rightarrow> Inl e
            | Inr tArray \<Rightarrow>
                (case odeint (\<lambda>v s. fst (JacobianVelocity v s g)) (ssp @ concat (identity 3)) tArray of
                   Inl e \<Rightarrow> Inl e
                 | Inr sol \<Rightarrow>
                     if sol = [] then Inl IndexError else reshape2 3 3 (drop 3 (last sol))), g)"
    using assms
    by (simp add: Jacobian_def Jacobian_init_3 identity_3 then_py_def lift_def last_row_def
        split: sum.splits)
  show ?thesis
    using assms shape run by (simp add: Jacobian_init_3 identity_3)
qed

theorem Jacobian_procedure_witness:
  "length [1, 2, 3 :: real] = 3 \<and>
   Jacobian_init [1, 2, 3] = Inr [1, 2, 3, 1, 0, 0, 0, 1, 0, 0, 0, 1] \<and>
   Jacobian Legacy euler_odeint [1, 2, 3] (PyFloat (1 / 40)) module_globals =
     (Inr [[1, - (1 / 40), - (1 / 40)], [1 / 40, 201 / 200, 0], [3 / 40, 0, 353 / 400]],
      module_globals)"
proof -
  have h: "length [1, 2, 3 :: real] = 3" by simp
  have count: "pymul (PyFloat (1 / 40)) (PyInt 100) = PyFloat (5 / 2)"
    by (simp add: round_double_100 round_double_5_2)
  have grid: "Jacobian_grid Legacy (PyFloat (1 / 40)) = Inr [0, 1 / 40]"
    by (simp add: Jacobian_grid_def linspace_def Let_def upt_rec count del: pymul.simps)
  note inst = Jacobian_procedure [OF h, of Legacy euler_odeint "PyFloat (1 / 40)" module_globals]
  have init: "Jacobian_init [1, 2, 3] = Inr [1, 2, 3, 1, 0, 0, 0, 1, 0, 0, 0, 1]"
    using inst by simp
  have "Jacobian Legacy euler_odeint [1, 2, 3] (PyFloat (1 / 40)) module_globals =
     (Inr [[1, - (1 / 40), - (1 / 40)], [1 / 40, 201 / 200, 0], [3 / 40, 0, 353 / 400]],
      module_globals)"
    using inst
    by (simp add: grid identity_3 euler_odeint_def JacobianVelocity_explicit module_globals_def
        reshape2_def rows_of_3_3)
  then show ?thesis using h init by simp
qed

text \<open>
  C5, as amended. \<^verbatim>\<open>Jacobian\<close> does not check its time argument. For \<open>t \<le> 0\<close> the sample
  count \<open>100 t\<close> is at most zero. A negative count is rejected by \<^verbatim>\<open>np.linspace\<close> with
  \<^verbatim>\<open>ValueError\<close> (a \<^verbatim>\<open>float\<close> count with \<^verbatim>\<open>TypeError\<close> on NumPy from 1.18 on). A count of zero
  gives the empty grid; a solution with one row per sample time has then no last row, and
  reading it raises \<^verbatim>\<open>IndexError\<close>. So, with such an integrator, no matrix is returned,
  but the failure at \<open>t = 0\<close> is not the rejection of an argument.
\<close>

theorem Jacobian_nonpositive_time:
  assumes "to_real t \<le> 0" and "one_row_per_time odeint"
  shows "(\<exists>e. Jacobian era odeint ssp t g = (Inl e, g)) \<and>
         (length ssp = 3 \<longrightarrow>
            (case Jacobian_grid era t of
               Inl e \<Rightarrow> InvalidArgument e \<and> Jacobian era odeint ssp t g = (Inl e, g)
             | Inr tArray \<Rightarrow>
                 tArray = [] \<and>
                 (case odeint (\<lambda>v s. fst (JacobianVelocity v s g)) (ssp @ concat (identity 3)) [] of
                    Inl e \<Rightarrow> Jacobian era odeint ssp t g = (Inl e, g)
                  | Inr sol \<Rightarrow> Jacobian era odeint ssp t g = (Inl IndexError, g)))) \<and>
         (\<forall>n. t = PyInt n \<longrightarrow>
            Jacobian_grid era t = (if n < 0 then Inl ValueError else Inr []))"
proof -
  have fails: "\<exists>e. Jacobian era odeint ssp t g = (Inl e, g)"
  proof (cases "Jacobian_init ssp")
    case (Inl e)
    then show ?thesis by (simp add: Jacobian_def then_py_def lift_def)
  next
    case (Inr y0)
    show ?thesis
    proof (cases "Jacobian_grid era t")
      case (Inl e)
      then show ?thesis using Inr by (simp add: Jacobian_def then_py_def lift_def)
    next
      case grid: (Inr tArray)
      then have empty: "tArray = []"
        using grid_nonpositive [OF assms(1), of era] by simp
      show ?thesis
      proof (cases "odeint (\<lambda>v s. fst (JacobianVelocity v s g)) y0 []")
        case (Inl e)
        then show ?thesis
          using Inr grid empty by (simp add: Jacobian_def then_py_def lift_def)
      next
        case sol: (Inr sol)
        from one_row_per_timeD [OF assms(2) sol] have "sol = []" by simp
        then show ?thesis
          using Inr grid empty sol by (simp add: Jacobian_def then_py_def lift_def last_row_def)
      qed
    qed
  qed
  have kinds: "case Jacobian_grid era t of
               Inl e \<Rightarrow> InvalidArgument e \<and> Jacobian era odeint ssp t g = (Inl e, g)
             | Inr tArray \<Rightarrow>
                 tArray = [] \<and>
                 (case odeint (\<lambda>v s. fst (JacobianVelocity v s g)) (ssp @ concat (identity 3)) [] of
                    Inl e \<Rightarrow> Jacobian era odeint ssp t g = (Inl e, g)
                  | Inr sol \<Rightarrow> Jacobian era odeint ssp t g = (Inl IndexError, g))"
    if len: "length ssp = 3"
  proof (cases "Jacobian_grid era t")
    case (Inl e)
    then have "InvalidArgument e"
      using grid_nonpositive [OF assms(1), of era] by (auto simp: InvalidArgument_def)
    then show ?thesis
      using Inl len by (simp add: Jacobian_def Jacobian_init_3 then_py_def lift_def)
  next
    case grid: (Inr tArray)
    then have empty: "tArray = []"
      using grid_nonpositive [OF assms(1), of era] by simp
    show ?thesis
    proof (cases "odeint (\<lambda>v s. fst (JacobianVelocity v s g)) (ssp @ concat (identity 3)) []")
      case (Inl e)
      then show ?thesis
        using grid empty len
        by (simp add: Jacobian_def Jacobian_init_3 identity_3 then_py_def lift_def)
    next
      case sol: (Inr sol)
      from one_row_per_timeD [OF assms(2) sol] have "sol = []" by simp
      then show ?thesis
        using grid empty len sol
        by (simp add: Jacobian_def Jacobian_init_3 identity_3 then_py_def lift_def last_row_def)
    qed
  qed
  have ints: "Jacobian_grid era t = (if n < 0 then Inl ValueError else Inr [])" if "t = PyInt n" for n
    using that assms(1) by (simp add: Jacobian_grid_def linspace_def Let_def)
  show ?thesis
    using fails kinds ints by blast
qed

theorem Jacobian_nonpositive_time_witness:
  "to_real (PyInt (- 1)) \<le> 0 \<and> one_row_per_time euler_odeint \<and>
   Jacobian Modern euler_odeint [1, 2, 3] (PyInt (- 1)) module_globals =
     (Inl ValueError, module_globals)"
proof -
  have h: "to_real (PyInt (- 1)) \<le> 0" by simp
  note inst = Jacobian_nonpositive_time [OF h euler_one_row_per_time,
      of Modern "[1, 2, 3]" module_globals]
  have grid: "Jacobian_grid Modern (PyInt (- 1)) = Inl ValueError"
    using inst by simp
  have "Jacobian Modern euler_odeint [1, 2, 3] (PyInt (- 1)) module_globals =
     (Inl ValueError, module_globals)"
    using inst by (simp add: grid)
  then show ?thesis
    using h euler_one_row_per_time by simp
qed

text \<open>
  At \<open>t = 0\<close> the grid is empty, the integrator returns no rows, and the failure is the
  \<^verbatim>\<open>IndexError\<close> of \<^verbatim>\<open>sspJacobianSolution[-1, 3:]\<close>.
\<close>

theorem Jacobian_zero_time_counterexample:
  "to_real (PyInt 0) \<le> 0 \<and>
   Jacobian Modern euler_odeint [1, 2, 3] (PyInt 0) module_globals =
     (Inl IndexError, module_globals) \<and>
   Jacobian Legacy euler_odeint [1, 2, 3] (PyInt 0) module_globals =
     (Inl IndexError, module_globals) \<and>
   \<not> InvalidArgument IndexError"
  by (simp add: Jacobian_def Jacobian_init_3 Jacobian_grid_def linspace_def euler_odeint_def
      then_py_def lift_def last_row_def InvalidArgument_def)

text \<open>
  C7. The claim is that for every \<open>t > 0\<close> the time grid of \<^verbatim>\<open>Jacobian\<close> has at least two
  points and ends at exactly \<open>t\<close>. The source builds the grid from \<^verbatim>\<open>tInitial\<close> to
  \<^verbatim>\<open>tFinal\<close> with \<^verbatim>\<open>t * 100\<close> points and sets no minimum, and at the float \<open>0.015\<close> it does
  not do what is claimed. The product \<^verbatim>\<open>t * 100\<close> is the float \<open>1.5\<close>. Where
  \<^verbatim>\<open>np.linspace\<close> truncates the count, the grid is the single point 0, nothing is
  integrated and \<^verbatim>\<open>Jacobian\<close> returns the identity matrix, which is the Jacobian of the flow
  over time 0 and not over \<open>t\<close>. Where it does not, \<^verbatim>\<open>np.linspace\<close> raises \<^verbatim>\<open>TypeError\<close>,
  as it does there for every float \<open>t\<close>.
\<close>

theorem Jacobian_short_time_grid:
  "0 < to_real (PyFloat (round_double (3 / 200))) \<and>
   pymul (PyFloat (round_double (3 / 200))) (PyInt 100) = PyFloat (3 / 2) \<and>
   Jacobian_grid Legacy (PyFloat (round_double (3 / 200))) = Inr [0] \<and>
   Jacobian Legacy euler_odeint [1, 2, 3] (PyFloat (round_double (3 / 200))) module_globals =
     (Inr [[1, 0, 0], [0, 1, 0], [0, 0, 1]], module_globals) \<and>
   Jacobian_grid Modern (PyFloat (round_double (3 / 200))) = Inl TypeError \<and>
   Jacobian Modern euler_odeint [1, 2, 3] (PyFloat (round_double (3 / 200))) module_globals =
     (Inl TypeError, module_globals)"
proof -
  let ?t = "PyFloat (round_double (3 / 200))"
  have pos: "0 < to_real ?t"
    by (simp add: round_double_0015)
  have count: "pymul ?t (PyInt 100) = PyFloat (3 / 2)"
    by (simp add: round_double_0015 round_double_100 round_double_0015_100)
  have legacy: "Jacobian_grid Legacy ?t = Inr [0]"
    by (simp add: Jacobian_grid_def linspace_def Let_def count del: pymul.simps)
  have modern: "Jacobian_grid Modern ?t = Inl TypeError"
    by (simp add: Jacobian_grid_def linspace_def Let_def count del: pymul.simps)
  have init: "Jacobian_init [1, 2, 3] = Inr [1, 2, 3, 1, 0, 0, 0, 1, 0, 0, 0, 1]"
    by (simp add: Jacobian_init_3)
  have J1: "Jacobian Legacy euler_odeint [1, 2, 3] ?t module_globals =
     (Inr [[1, 0, 0], [0, 1, 0], [0, 0, 1]], module_globals)"
    by (simp add: Jacobian_def init legacy euler_odeint_def then_py_def lift_def last_row_def
        reshape2_def rows_of_3_3)
  have J2: "Jacobian Modern euler_odeint [1, 2, 3] ?t module_globals =
     (Inl TypeError, module_globals)"
    by (simp add: Jacobian_def init modern then_py_def lift_def)
  show ?thesis
    using pos count legacy modern J1 J2 by blast
qed

section \<open>Packing and unpacking the augmented state\<close>

text \<open>
  C10. Reading nine components as a matrix of three rows and writing the rows out one
  after the other are inverse to each other, in both directions. So are the two steps of
  the source that use them on an augmented state: \<open>unpack_J\<close>, which reads the matrix
  from components 3 to 11 row by row, and \<open>pack_J\<close>, which writes a matrix there and
  leaves the first three components alone. What \<^verbatim>\<open>JacobianVelocity\<close> packs into its result
  is read back as the product it computed, and the last nine components of the initial
  condition that \<^verbatim>\<open>Jacobian\<close> builds are read by \<^verbatim>\<open>JacobianVelocity\<close> as the identity
  matrix.
\<close>

theorem pack_unpack_roundtrip:
  "(length v = 9 \<longrightarrow>
      (\<exists>M. reshape2 3 3 v = Inr M \<and> length M = 3 \<and> (\<forall>row\<in>set M. length row = 3) \<and>
           reshape1 M 9 = Inr v)) \<and>
   (length N = 3 \<and> (\<forall>row\<in>set N. length row = 3) \<longrightarrow>
      (\<exists>w. reshape1 N 9 = Inr w \<and> length w = 9 \<and> reshape2 3 3 w = Inr N)) \<and>
   (length u = 12 \<longrightarrow>
      (\<exists>M. unpack_J u = Inr M \<and> length M = 3 \<and> (\<forall>row\<in>set M. length row = 3) \<and>
           (\<forall>i<3. \<forall>j<3. M ! i ! j = u ! (3 + 3 * i + j)) \<and>
           pack_J u M = Inr u \<and>
           (\<forall>buf. length buf = 12 \<longrightarrow> pack_J buf M = Inr (take 3 buf @ drop 3 u)))) \<and>
   (length buf = 12 \<and> length N = 3 \<and> (\<forall>row\<in>set N. length row = 3) \<longrightarrow>
      (\<exists>w. pack_J buf N = Inr w \<and> length w = 12 \<and> take 3 w = take 3 buf \<and>
           drop 3 w = concat N \<and> unpack_J w = Inr N)) \<and>
   (length u = 12 \<longrightarrow>
      (\<exists>out A M P. JacobianVelocity u t g = (Inr out, g) \<and>
           StabilityMatrix (take 3 u) g = (Inr A, g) \<and> unpack_J u = Inr M \<and>
           dot A M = Inr P \<and> unpack_J out = Inr P)) \<and>
   (Jacobian_init ssp = Inr v0 \<longrightarrow>
      unpack_J v0 = Inr (identity 3) \<and> identity 3 = [[1, 0, 0], [0, 1, 0], [0, 0, 1]])"
proof -
  have there: "\<exists>M. reshape2 3 3 v = Inr M \<and> length M = 3 \<and> (\<forall>row\<in>set M. length row = 3) \<and>
           reshape1 M 9 = Inr v" if "length v = 9"
  proof -
    have len: "length v = 3 * 3"
      using that by simp
    have "reshape2 3 3 v = Inr (rows_of 3 3 v)"
      using that by (simp add: reshape2_def)
    moreover have "\<forall>row\<in>set (rows_of 3 3 v). length row = 3"
      using rows_of_row_length [OF len] by blast
    moreover have "reshape1 (rows_of 3 3 v) 9 = Inr v"
      using concat_rows_of [OF len] that by (simp add: reshape1_def)
    ultimately show ?thesis
      by (simp add: length_rows_of)
  qed
  have back_again: "\<exists>w. reshape1 N 9 = Inr w \<and> length w = 9 \<and> reshape2 3 3 w = Inr N"
    if "length N = 3 \<and> (\<forall>row\<in>set N. length row = 3)"
  proof -
    from that have rows: "\<forall>row\<in>set N. length row = 3" and three: "length N = 3"
      by simp_all
    have len: "length (concat N) = 9"
      using length_concat_rows [OF rows] three by simp
    have "rows_of 3 3 (concat N) = N"
      using rows_of_concat [OF rows] three by simp
    then show ?thesis
      using len by (simp add: reshape1_def reshape2_def)
  qed
  have decode_encode: "\<exists>M. unpack_J u = Inr M \<and> length M = 3 \<and> (\<forall>row\<in>set M. length row = 3) \<and>
           (\<forall>i<3. \<forall>j<3. M ! i ! j = u ! (3 + 3 * i + j)) \<and>
           pack_J u M = Inr u \<and>
           (\<forall>buf. length buf = 12 \<longrightarrow> pack_J buf M = Inr (take 3 buf @ drop 3 u))"
    if "length u = 12"
  proof -
    from len12 [OF that] obtain x y z m0 m1 m2 m3 m4 m5 m6 m7 m8
      where u: "u = [x, y, z, m0, m1, m2, m3, m4, m5, m6, m7, m8]"
      by (elim exE)
    let ?M = "[[m0, m1, m2], [m3, m4, m5], [m6, m7, m8]]"
    have 1: "unpack_J u = Inr ?M"
      by (simp add: u unpack_J_explicit)
    have 2: "\<forall>i<3. \<forall>j<3. ?M ! i ! j = u ! (3 + 3 * i + j)"
      by (simp add: u all_lt3)
    have 3: "pack_J u ?M = Inr u"
      by (simp add: u pack_J_explicit)
    have 4: "pack_J buf ?M = Inr (take 3 buf @ drop 3 u)" if "length buf = 12" for buf
    proof -
      from len12 [OF that] obtain b0 b1 b2 b3 b4 b5 b6 b7 b8 b9 b10 b11
        where "buf = [b0, b1, b2, b3, b4, b5, b6, b7, b8, b9, b10, b11]"
        by (elim exE)
      then show ?thesis
        by (simp add: u pack_J_explicit)
    qed
    show ?thesis
      using 1 2 3 4 by (intro exI [of _ ?M] conjI) simp_all
  qed
  have encode_decode: "\<exists>w. pack_J buf N = Inr w \<and> length w = 12 \<and> take 3 w = take 3 buf \<and>
           drop 3 w = concat N \<and> unpack_J w = Inr N"
    if "length buf = 12 \<and> length N = 3 \<and> (\<forall>row\<in>set N. length row = 3)"
  proof -
    from that have "length buf = 12" and "length N = 3" and "\<forall>row\<in>set N. length row = 3"
      by simp_all
    from len12 [OF this(1)] obtain b0 b1 b2 b3 b4 b5 b6 b7 b8 b9 b10 b11
      where buf: "buf = [b0, b1, b2, b3, b4, b5, b6, b7, b8, b9, b10, b11]"
      by (elim exE)
    from three_by_three [OF \<open>length N = 3\<close> \<open>\<forall>row\<in>set N. length row = 3\<close>]
    obtain m0 m1 m2 m3 m4 m5 m6 m7 m8
      where N: "N = [[m0, m1, m2], [m3, m4, m5], [m6, m7, m8]]"
      by (elim exE)
    show ?thesis
      by (simp add: buf N pack_J_explicit unpack_J_explicit)
  qed
  have product: "\<exists>out A M P. JacobianVelocity u t g = (Inr out, g) \<and>
           StabilityMatrix (take 3 u) g = (Inr A, g) \<and> unpack_J u = Inr M \<and>
           dot A M = Inr P \<and> unpack_J out = Inr P"
    if "length u = 12"
  proof -
    from len12 [OF that] obtain x y z m0 m1 m2 m3 m4 m5 m6 m7 m8
      where u: "u = [x, y, z, m0, m1, m2, m3, m4, m5, m6, m7, m8]"
      by (elim exE)
    show ?thesis
      by (simp add: u JacobianVelocity_explicit StabilityMatrix_def unpack_J_explicit dot_3_3)
  qed
  have decode: "unpack_J v0 = Inr (identity 3)" if init: "Jacobian_init ssp = Inr v0"
  proof -
    consider "length ssp = 3" | "length ssp = 1" | "length ssp \<noteq> 3" "length ssp \<noteq> 1"
      by blast
    then show ?thesis
    proof cases
      case 1
      then have "v0 = ssp @ [1, 0, 0, 0, 1, 0, 0, 0, 1]"
        using init by (simp add: Jacobian_init_3)
      then show ?thesis
        using 1 by (simp add: unpack_J_def reshape2_def rows_of_3_3 identity_3)
    next
      case 2
      then obtain x where "ssp = [x]"
        by (auto simp: length_Suc_conv)
      then have "v0 = [x, x, x, 1, 0, 0, 0, 1, 0, 0, 0, 1]"
        using init by (simp add: Jacobian_init_1)
      then show ?thesis
        by (simp add: unpack_J_def reshape2_def rows_of_3_3 identity_3)
    next
      case 3
      then have "Jacobian_init ssp = Inl ValueError"
        by (rule Jacobian_init_other)
      then show ?thesis
        using init by simp
    qed
  qed
  show ?thesis
    using there back_again decode_encode encode_decode product decode identity_3 by blast
qed

theorem pack_unpack_roundtrip_witness:
  "reshape2 3 3 [1, 2, 3, 4, 5, 6, 7, 8, 9] = Inr [[1, 2, 3], [4, 5, 6], [7, 8, 9]] \<and>
   reshape1 [[1, 2, 3], [4, 5, 6], [7, 8, 9]] 9 = Inr [1, 2, 3, 4, 5, 6, 7, 8, 9] \<and>
   unpack_J [10, 11, 12, 1, 2, 3, 4, 5, 6, 7, 8, 9] = Inr [[1, 2, 3], [4, 5, 6], [7, 8, 9]] \<and>
   pack_J [0, 0, 0, 0, 0, 0, 0, 0, 0, 0, 0, 0] [[1, 2, 3], [4, 5, 6], [7, 8, 9]] =
     Inr [0, 0, 0, 1, 2, 3, 4, 5, 6, 7, 8, 9] \<and>
   unpack_J [0, 0, 0, 1, 2, 3, 4, 5, 6, 7, 8, 9] = Inr [[1, 2, 3], [4, 5, 6], [7, 8, 9]] \<and>
   Jacobian_init [1, 2, 3] = Inr [1, 2, 3, 1, 0, 0, 0, 1, 0, 0, 0, 1] \<and>
   unpack_J [1, 2, 3, 1, 0, 0, 0, 1, 0, 0, 0, 1] = Inr [[1, 0, 0], [0, 1, 0], [0, 0, 1]]"
proof -
  let ?flat = "[1, 2, 3, 4, 5, 6, 7, 8, 9 :: real]"
  let ?N = "[[1, 2, 3], [4, 5, 6], [7, 8, 9 :: real]]"
  let ?u = "[10, 11, 12, 1, 2, 3, 4, 5, 6, 7, 8, 9 :: real]"
  let ?buf = "[0, 0, 0, 0, 0, 0, 0, 0, 0, 0, 0, 0 :: real]"
  let ?aug = "[1, 2, 3, 1, 0, 0, 0, 1, 0, 0, 0, 1 :: real]"
  note inst = pack_unpack_roundtrip [of ?flat ?N ?u ?buf "0::real" module_globals "[1, 2, 3]" ?aug]
  have init: "Jacobian_init [1, 2, 3] = Inr ?aug"
    by (simp add: Jacobian_init_3)
  have 1: "reshape2 3 3 ?flat = Inr ?N"
    by (simp add: reshape2_def rows_of_3_3)
  have 2: "reshape1 ?N 9 = Inr ?flat"
    using inst 1 by simp
  from inst have "\<exists>M. unpack_J ?u = Inr M \<and> (\<forall>i<3. \<forall>j<3. M ! i ! j = ?u ! (3 + 3 * i + j)) \<and>
      length M = 3 \<and> (\<forall>row\<in>set M. length row = 3)"
    by auto
  then obtain M where M: "unpack_J ?u = Inr M" "\<forall>i<3. \<forall>j<3. M ! i ! j = ?u ! (3 + 3 * i + j)"
      "length M = 3" "\<forall>row\<in>set M. length row = 3"
    by blast
  from three_by_three [OF M(3,4)] obtain m0 m1 m2 m3 m4 m5 m6 m7 m8
    where "M = [[m0, m1, m2], [m3, m4, m5], [m6, m7, m8]]"
    by (elim exE)
  then have "M = ?N"
    using M(2) by (simp add: all_lt3)
  then have 3: "unpack_J ?u = Inr ?N"
    using M(1) by simp
  from inst have "\<exists>w. pack_J ?buf ?N = Inr w \<and> take 3 w = take 3 ?buf \<and> drop 3 w = concat ?N \<and>
      unpack_J w = Inr ?N"
    by auto
  then obtain w where w: "pack_J ?buf ?N = Inr w" "take 3 w = take 3 ?buf" "drop 3 w = concat ?N"
      "unpack_J w = Inr ?N"
    by blast
  have "w = take 3 w @ drop 3 w"
    by simp
  then have "w = [0, 0, 0, 1, 2, 3, 4, 5, 6, 7, 8, 9]"
    unfolding w(2,3) by simp
  then have 4: "pack_J ?buf ?N = Inr [0, 0, 0, 1, 2, 3, 4, 5, 6, 7, 8, 9]"
    and 5: "unpack_J [0, 0, 0, 1, 2, 3, 4, 5, 6, 7, 8, 9] = Inr ?N"
    using w(1,4) by simp_all
  have 6: "unpack_J ?aug = Inr [[1, 0, 0], [0, 1, 0], [0, 0, 1]]"
    using inst init by simp
  show ?thesis
    using 1 2 3 4 5 6 init by simp
qed

end
